theory Spec2Isabelle
  imports Main "HOL-Library.AList" "HOL-Library.Sublist"
begin

section \<open>JavaScript strings\<close>

text \<open>
  A JavaScript string is a sequence of UTF-16 code units. A code unit is modelled as a
  natural number, so that every unit a \<^verbatim>\<open>\uXXXX\<close> escape can produce and every
  white-space character of \<^verbatim>\<open>String.prototype.trim\<close> has a value.  \<open>js\<close> turns an
  ASCII literal of the source into such a string.
\<close>

type_synonym jstring = "nat list"

definition js :: "string \<Rightarrow> jstring" where
  "js s = map of_char s"

text \<open>
  \<^verbatim>\<open>s.replace(pat, rep)\<close> with a string pattern: only the first occurrence of
  \<open>pat\<close> is replaced.  The replacement is taken literally; the only replacement the
  source uses is the empty string, which has no \<^verbatim>\<open>$\<close> pattern.
\<close>

fun replace :: "jstring \<Rightarrow> jstring \<Rightarrow> jstring \<Rightarrow> jstring" where
  "replace pat rep [] = (if pat = [] then rep else [])"
| "replace pat rep (c # cs) =
     (if prefix pat (c # cs) then rep @ drop (length pat) (c # cs)
      else c # replace pat rep cs)"

text \<open>\<^verbatim>\<open>s.split(sep)\<close> for a separator of one code unit.\<close>

fun js_split :: "nat \<Rightarrow> jstring \<Rightarrow> jstring list" where
  "js_split sep [] = [[]]"
| "js_split sep (c # cs) =
     (if c = sep then [] # js_split sep cs
      else (case js_split sep cs of
              [] \<Rightarrow> [[c]]
            | l # ls \<Rightarrow> (c # l) # ls))"

text \<open>
  \<^verbatim>\<open>s.trim()\<close> removes the code units of the ECMAScript productions WhiteSpace and
  LineTerminator from both ends: TAB, LF, VT, FF, CR, SP, NBSP, U+1680, U+2000 to U+200A,
  U+2028, U+2029, U+202F, U+205F, U+3000 and U+FEFF.
\<close>

definition is_white_space :: "nat \<Rightarrow> bool" where
  "is_white_space c \<longleftrightarrow>
     c = 9 \<or> c = 10 \<or> c = 11 \<or> c = 12 \<or> c = 13 \<or> c = 32 \<or> c = 160 \<or> c = 5760 \<or>
     (8192 \<le> c \<and> c \<le> 8202) \<or> c = 8232 \<or> c = 8233 \<or> c = 8239 \<or> c = 8287 \<or>
     c = 12288 \<or> c = 65279"

definition trim :: "jstring \<Rightarrow> jstring" where
  "trim s = rev (dropWhile is_white_space (rev (dropWhile is_white_space s)))"

fun join_with :: "jstring \<Rightarrow> jstring list \<Rightarrow> jstring" where
  "join_with sep [] = []"
| "join_with sep [s] = s"
| "join_with sep (s # t # ss) = s @ sep @ join_with sep (t # ss)"

text \<open>The decimal digits of a status code, as a template literal prints it.\<close>

fun decimal :: "nat \<Rightarrow> jstring" where
  "decimal n = (if n < 10 then [48 + n] else decimal (n div 10) @ [48 + n mod 10])"

section \<open>JSON values\<close>

text \<open>
  The values the program handles are those of \<^verbatim>\<open>JSON.parse\<close>, and \<^verbatim>\<open>undefined\<close>
  for a property that is not there.  A number is kept as the exact decimal its literal
  denotes, \<open>JNum m e\<close> for \<open>m * 10 ^ e\<close>.  An object is the list of its own properties;
  the program only reads properties by name, so the order of the list carries no meaning.
\<close>

datatype json =
    JUndefined
  | JNull
  | JBool bool
  | JNum int int
  | JStr jstring
  | JArr "json list"
  | JObj "(jstring \<times> json) list"

definition nullish :: "json \<Rightarrow> bool" where
  "nullish v \<longleftrightarrow> v = JUndefined \<or> v = JNull"

text \<open>
  Reading a property \<^verbatim>\<open>v.k\<close> of a value that is neither \<^verbatim>\<open>null\<close> nor
  \<^verbatim>\<open>undefined\<close>, and \<^verbatim>\<open>v?.k\<close> of any value.  The names the program reads
  (\<^verbatim>\<open>messages\<close>, \<^verbatim>\<open>role\<close>, \<^verbatim>\<open>content\<close>, \<^verbatim>\<open>message\<close>, \<^verbatim>\<open>done\<close>,
  \<^verbatim>\<open>stream\<close>) are inherited from no prototype, so only an object's own properties
  can answer.
\<close>

fun get_prop :: "json \<Rightarrow> jstring \<Rightarrow> json" where
  "get_prop (JObj fs) k = (case map_of fs k of None \<Rightarrow> JUndefined | Some v \<Rightarrow> v)"
| "get_prop _ k = JUndefined"

text \<open>
  \<^verbatim>\<open>ToBoolean\<close>.  A number is false when its double is zero: the literal's digits are
  all zero, or its value is at most \<open>2 ^ - 1075\<close>, half the smallest subnormal, and
  rounds to zero.
\<close>

definition number_is_zero :: "int \<Rightarrow> int \<Rightarrow> bool" where
  "number_is_zero m e \<longleftrightarrow> m = 0 \<or> (e < 0 \<and> \<bar>m\<bar> * 2 ^ 1075 \<le> 10 ^ nat (- e))"

fun truthy :: "json \<Rightarrow> bool" where
  "truthy JUndefined = False"
| "truthy JNull = False"
| "truthy (JBool b) = b"
| "truthy (JNum m e) = (\<not> number_is_zero m e)"
| "truthy (JStr s) = (s \<noteq> [])"
| "truthy (JArr xs) = True"
| "truthy (JObj fs) = True"

text \<open>
  \<^verbatim>\<open>ToString\<close>, as string concatenation applies it to its right operand.  The digits
  of a double are floating-point formatting of the runtime and are a parameter.  An array
  joins its elements with commas, \<^verbatim>\<open>null\<close> and \<^verbatim>\<open>undefined\<close> elements printing
  as nothing.  An object prints as \<^verbatim>\<open>[object Object]\<close>, unless it has an own property
  \<^verbatim>\<open>toString\<close>: a parsed value is not callable, the conversion finds no method and
  raises a TypeError, here \<open>None\<close>.
\<close>

type_synonym number_format = "int \<Rightarrow> int \<Rightarrow> jstring"

fun to_string :: "number_format \<Rightarrow> json \<Rightarrow> jstring option" where
  "to_string nf JUndefined = Some (js ''undefined'')"
| "to_string nf JNull = Some (js ''null'')"
| "to_string nf (JBool b) = Some (if b then js ''true'' else js ''false'')"
| "to_string nf (JNum m e) = Some (nf m e)"
| "to_string nf (JStr s) = Some s"
| "to_string nf (JArr xs) =
     map_option (join_with (js '',''))
       (those (map (\<lambda>x. if x = JUndefined \<or> x = JNull then Some [] else to_string nf x) xs))"
| "to_string nf (JObj fs) =
     (if js ''toString'' \<in> fst ` set fs then None else Some (js ''[object Object]''))"

section \<open>\<^verbatim>\<open>JSON.parse\<close>\<close>

text \<open>
  \<^verbatim>\<open>JSON.parse\<close> belongs to the runtime.  It is modelled from the JSON grammar of
  ECMA-404, which ECMAScript adopts: a lexer, then a parser that keeps the open arrays
  and objects on a stack.  \<open>None\<close> is the SyntaxError.
\<close>

datatype token =
    T_lbrace | T_rbrace | T_lbracket | T_rbracket | T_colon | T_comma
  | T_string jstring | T_number int int | T_true | T_false | T_null

definition is_digit :: "nat \<Rightarrow> bool" where
  "is_digit c \<longleftrightarrow> 48 \<le> c \<and> c \<le> 57"

definition hex_value :: "nat \<Rightarrow> nat option" where
  "hex_value c =
     (if 48 \<le> c \<and> c \<le> 57 then Some (c - 48)
      else if 65 \<le> c \<and> c \<le> 70 then Some (c - 55)
      else if 97 \<le> c \<and> c \<le> 102 then Some (c - 87)
      else None)"

definition hex4 :: "nat \<Rightarrow> nat \<Rightarrow> nat \<Rightarrow> nat \<Rightarrow> nat option" where
  "hex4 a b c d =
     (case (hex_value a, hex_value b, hex_value c, hex_value d) of
        (Some w, Some x, Some y, Some z) \<Rightarrow> Some (((w * 16 + x) * 16 + y) * 16 + z)
      | _ \<Rightarrow> None)"

text \<open>The character after a backslash, other than \<^verbatim>\<open>u\<close>.\<close>

definition escape :: "nat \<Rightarrow> nat option" where
  "escape c =
     (if c = 34 then Some 34
      else if c = 92 then Some 92
      else if c = 47 then Some 47
      else if c = 98 then Some 8
      else if c = 102 then Some 12
      else if c = 110 then Some 10
      else if c = 114 then Some 13
      else if c = 116 then Some 9
      else None)"

text \<open>
  The rest of a string literal after its opening quote: the string it denotes and the
  input after the closing quote.  A control character below U+0020 is not allowed.
\<close>

fun lex_string :: "jstring \<Rightarrow> (jstring \<times> jstring) option" where
  "lex_string [] = None"
| "lex_string (c # cs) =
     (if c = 34 then Some ([], cs)
      else if c = 92 then
        (case cs of
           [] \<Rightarrow> None
         | e # r \<Rightarrow>
             if e = 117 then
               (case r of
                  h1 # h2 # h3 # h4 # r' \<Rightarrow>
                    (case hex4 h1 h2 h3 h4 of
                       None \<Rightarrow> None
                     | Some u \<Rightarrow> map_option (\<lambda>(s, rest). (u # s, rest)) (lex_string r'))
                | _ \<Rightarrow> None)
             else
               (case escape e of
                  None \<Rightarrow> None
                | Some x \<Rightarrow> map_option (\<lambda>(s, rest). (x # s, rest)) (lex_string r)))
      else if c < 32 then None
      else map_option (\<lambda>(s, rest). (c # s, rest)) (lex_string cs))"

definition digits_value :: "jstring \<Rightarrow> int" where
  "digits_value ds = foldl (\<lambda>n d. n * 10 + int (d - 48)) 0 ds"

text \<open>
  A number literal: an optional minus sign, \<^verbatim>\<open>0\<close> or a digit from 1 to 9 followed by
  digits, an optional fraction, an optional exponent.  Each part returns what it read and
  the input after it; the result is the mantissa, the decimal exponent and the input after
  the literal.
\<close>

definition int_part :: "jstring \<Rightarrow> (jstring \<times> jstring) option" where
  "int_part cs =
     (case cs of
        [] \<Rightarrow> None
      | c # r \<Rightarrow>
          if c = 48 then Some ([48], r)
          else if is_digit c then Some (takeWhile is_digit cs, dropWhile is_digit cs)
          else None)"

definition frac_part :: "jstring \<Rightarrow> (jstring \<times> jstring) option" where
  "frac_part cs =
     (case cs of
        [] \<Rightarrow> Some ([], [])
      | c # r \<Rightarrow>
          if c = 46 then
            (if takeWhile is_digit r = [] then None
             else Some (takeWhile is_digit r, dropWhile is_digit r))
          else Some ([], cs))"

definition exp_part :: "jstring \<Rightarrow> (int \<times> jstring) option" where
  "exp_part cs =
     (case cs of
        [] \<Rightarrow> Some (0, [])
      | c # r \<Rightarrow>
          if c = 101 \<or> c = 69 then
            (let neg = (r \<noteq> [] \<and> hd r = 45);
                 r' = (if r \<noteq> [] \<and> (hd r = 45 \<or> hd r = 43) then tl r else r);
                 es = takeWhile is_digit r'
             in if es = [] then None
                else Some (if neg then - digits_value es else digits_value es,
                           dropWhile is_digit r'))
          else Some (0, cs))"

definition lex_number :: "jstring \<Rightarrow> ((int \<times> int) \<times> jstring) option" where
  "lex_number cs =
     (let neg = (cs \<noteq> [] \<and> hd cs = 45) in
      case int_part (if neg then tl cs else cs) of
        None \<Rightarrow> None
      | Some (ds, cs2) \<Rightarrow>
          (case frac_part cs2 of
             None \<Rightarrow> None
           | Some (fs, cs3) \<Rightarrow>
               (case exp_part cs3 of
                  None \<Rightarrow> None
                | Some (x, cs4) \<Rightarrow>
                    Some ((if neg then - digits_value (ds @ fs) else digits_value (ds @ fs),
                           x - int (length fs)), cs4))))"

function lex :: "jstring \<Rightarrow> token list option" where
  "lex [] = Some []"
| "lex (c # cs) =
     (if c = 32 \<or> c = 9 \<or> c = 10 \<or> c = 13 then lex cs
      else if c = 123 then map_option ((#) T_lbrace) (lex cs)
      else if c = 125 then map_option ((#) T_rbrace) (lex cs)
      else if c = 91 then map_option ((#) T_lbracket) (lex cs)
      else if c = 93 then map_option ((#) T_rbracket) (lex cs)
      else if c = 58 then map_option ((#) T_colon) (lex cs)
      else if c = 44 then map_option ((#) T_comma) (lex cs)
      else if c = 34 then
        (case lex_string cs of
           None \<Rightarrow> None
         | Some (s, rest) \<Rightarrow> map_option ((#) (T_string s)) (lex rest))
      else if c = 45 \<or> is_digit c then
        (case lex_number (c # cs) of
           None \<Rightarrow> None
         | Some ((m, e), rest) \<Rightarrow> map_option ((#) (T_number m e)) (lex rest))
      else if prefix (js ''true'') (c # cs) then map_option ((#) T_true) (lex (drop 3 cs))
      else if prefix (js ''false'') (c # cs) then map_option ((#) T_false) (lex (drop 4 cs))
      else if prefix (js ''null'') (c # cs) then map_option ((#) T_null) (lex (drop 3 cs))
      else None)"
  by pat_completeness auto
text \<open>
  The parser reads the tokens from left to right.  Its stack holds one frame for every
  array or object that is still open: the elements read so far, or the properties read so
  far with the name that waits for its value.  A name that occurs twice keeps its first
  place and takes the later value, as \<open>AList.update\<close> does.
\<close>

datatype frame =
    In_array "json list"
  | In_object "(jstring \<times> json) list" jstring

datatype expect =
    Want_value
  | Want_value_or_end
  | Want_name_or_end
  | Want_name
  | Want_colon
  | Want_separator
  | Finished json

fun deliver :: "json \<Rightarrow> frame list \<Rightarrow> expect \<times> frame list" where
  "deliver v [] = (Finished v, [])"
| "deliver v (In_array vs # st) = (Want_separator, In_array (vs @ [v]) # st)"
| "deliver v (In_object ms k # st) = (Want_separator, In_object (AList.update k v ms) k # st)"

fun start_value :: "token \<Rightarrow> frame list \<Rightarrow> (expect \<times> frame list) option" where
  "start_value T_lbracket st = Some (Want_value_or_end, In_array [] # st)"
| "start_value T_lbrace st = Some (Want_name_or_end, In_object [] [] # st)"
| "start_value (T_string s) st = Some (deliver (JStr s) st)"
| "start_value (T_number m e) st = Some (deliver (JNum m e) st)"
| "start_value T_true st = Some (deliver (JBool True) st)"
| "start_value T_false st = Some (deliver (JBool False) st)"
| "start_value T_null st = Some (deliver JNull st)"
| "start_value _ st = None"

fun close_array :: "frame list \<Rightarrow> (expect \<times> frame list) option" where
  "close_array (In_array vs # st) = Some (deliver (JArr vs) st)"
| "close_array _ = None"

fun close_object :: "frame list \<Rightarrow> (expect \<times> frame list) option" where
  "close_object (In_object ms k # st) = Some (deliver (JObj ms) st)"
| "close_object _ = None"

fun take_name :: "jstring \<Rightarrow> frame list \<Rightarrow> (expect \<times> frame list) option" where
  "take_name s (In_object ms k # st) = Some (Want_colon, In_object ms s # st)"
| "take_name s _ = None"

fun after_comma :: "frame list \<Rightarrow> (expect \<times> frame list) option" where
  "after_comma (In_array vs # st) = Some (Want_value, In_array vs # st)"
| "after_comma (In_object ms k # st) = Some (Want_name, In_object ms k # st)"
| "after_comma [] = None"

fun parse_step :: "expect \<Rightarrow> frame list \<Rightarrow> token \<Rightarrow> (expect \<times> frame list) option" where
  "parse_step Want_value st t = start_value t st"
| "parse_step Want_value_or_end st t =
     (if t = T_rbracket then close_array st else start_value t st)"
| "parse_step Want_name_or_end st t =
     (case t of T_rbrace \<Rightarrow> close_object st | T_string s \<Rightarrow> take_name s st | _ \<Rightarrow> None)"
| "parse_step Want_name st t = (case t of T_string s \<Rightarrow> take_name s st | _ \<Rightarrow> None)"
| "parse_step Want_colon st t = (if t = T_colon then Some (Want_value, st) else None)"
| "parse_step Want_separator st t =
     (case t of
        T_comma \<Rightarrow> after_comma st
      | T_rbracket \<Rightarrow> close_array st
      | T_rbrace \<Rightarrow> close_object st
      | _ \<Rightarrow> None)"
| "parse_step (Finished v) st t = None"

fun parse_tokens :: "expect \<Rightarrow> frame list \<Rightarrow> token list \<Rightarrow> json option" where
  "parse_tokens x st [] = (case x of Finished v \<Rightarrow> Some v | _ \<Rightarrow> None)"
| "parse_tokens x st (t # ts) =
     (case parse_step x st t of
        None \<Rightarrow> None
      | Some (x', st') \<Rightarrow> parse_tokens x' st' ts)"

definition JSON_parse :: "jstring \<Rightarrow> json option" where
  "JSON_parse text = (case lex text of None \<Rightarrow> None | Some ts \<Rightarrow> parse_tokens Want_value [] ts)"

section \<open>Requests, errors and effects\<close>

definition DEEPSEEK_CHAT_MODEL :: jstring where
  "DEEPSEEK_CHAT_MODEL = js ''deepseek-r1:1.5b''"

definition CLAUDE_MODEL :: jstring where
  "CLAUDE_MODEL = js ''anthropic/claude-3.5-sonnet''"

text \<open>
  What the source throws: an \<^verbatim>\<open>APIError\<close> with its message and status code, or any
  other error with its message (a TypeError or SyntaxError of the runtime, a failed
  fetch).  The wording of the messages the runtime raises is the engine's own; the model
  writes a fixed text for them.
\<close>

datatype js_error =
    APIError jstring nat
  | Js_error jstring

definition TypeError :: js_error where
  "TypeError = Js_error (js ''TypeError'')"

definition SyntaxError :: js_error where
  "SyntaxError = Js_error (js ''SyntaxError'')"

text \<open>
  Of the inbound request the source reads \<^verbatim>\<open>req.headers.authorization\<close>, absent or a
  string, and \<^verbatim>\<open>req.body\<close>, the value the JSON body parser left there.
\<close>

record request =
  authorization :: "jstring option"
  body :: json

text \<open>
  The network is the environment.  A fetch is rejected with a message or resolves to a
  response; reading the text of a response fails with a message or gives the text.  The
  body of a streamed response is the sequence of what happens while it is relayed: a chunk
  arrives, the stream ends, a read fails, the heartbeat timer fires, the caller closes its
  connection.
\<close>

datatype relay_event =
    Chunk jstring
  | Read_done
  | Read_error jstring
  | Tick
  | Client_close

record http_response =
  status :: nat
  text_body :: "jstring + jstring"
  stream_body :: "relay_event list"

datatype fetch_outcome =
    Fetch_rejected jstring
  | Fetch_resolved http_response

record network =
  ollama :: fetch_outcome
  openrouter :: fetch_outcome

definition ok :: "http_response \<Rightarrow> bool" where
  "ok response \<longleftrightarrow> 200 \<le> status response \<and> status response \<le> 299"

text \<open>
  The effects of the handler, in the order they happen: the two outbound requests with the
  value that is serialised as their body (and the bearer token of the upstream one), and
  the calls on the response object and the timer.  \<open>Res_status\<close> is the call that
  sets the status code of the response object, which goes out with the headers;
  \<open>Res_json\<close> is a call of \<^verbatim>\<open>res.json\<close> that has sent its body.  A call that throws
  is no effect: it is the way the function ends.  \<open>Client_closed\<close> is no effect of
  the program; it marks the place where the caller went away.
\<close>

datatype event =
    Fetch_ollama json
  | Fetch_openrouter jstring json
  | Res_setHeader jstring jstring
  | Res_write jstring
  | Res_end
  | Res_status nat
  | Res_json json
  | Set_interval
  | Clear_interval
  | Client_closed

text \<open>How an asynchronous function ends: it returns, it throws, or it never settles.\<close>

datatype completion =
    Returned
  | Threw js_error
  | Pending

fun isArray :: "json \<Rightarrow> bool" where
  "isArray (JArr xs) = True"
| "isArray _ = False"

fun elements :: "json \<Rightarrow> json list" where
  "elements (JArr xs) = xs"
| "elements _ = []"

fun own_properties :: "json \<Rightarrow> (jstring \<times> json) list" where
  "own_properties (JObj fs) = fs"
| "own_properties _ = []"

section \<open>The functions of \<^verbatim>\<open>src/index.js\<close>\<close>

text \<open>
  \<^verbatim>\<open>validateRequest\<close>.  Destructuring \<^verbatim>\<open>req.body\<close> raises a TypeError when the body
  is \<^verbatim>\<open>undefined\<close> or \<^verbatim>\<open>null\<close>.
\<close>

definition validateRequest :: "request \<Rightarrow> js_error + json" where
  "validateRequest req =
     (if nullish (body req) then Inl TypeError
      else
        (let messages = get_prop (body req) (js ''messages'') in
         if \<not> isArray messages \<or> length (elements messages) = 0
         then Inl (APIError (js ''Invalid request: messages array is required'') 400)
         else Inr (body req)))"

text \<open>\<^verbatim>\<open>getOpenRouterKey\<close>; \<open>map_option\<close> is the optional call \<^verbatim>\<open>?.replace\<close>.\<close>

definition getOpenRouterKey :: "request \<Rightarrow> js_error + jstring" where
  "getOpenRouterKey req =
     (case map_option (replace (js ''Bearer '') []) (authorization req) of
        None \<Rightarrow> Inl (APIError (js ''Missing OpenRouter API key'') 401)
      | Some key \<Rightarrow>
          if key = [] then Inl (APIError (js ''Missing OpenRouter API key'') 401)
          else Inr key)"

text \<open>
  \<^verbatim>\<open>prepareOllamaRequest\<close>.  \<open>remap_message\<close> is the arrow function given to
  \<^verbatim>\<open>map\<close>; reading \<^verbatim>\<open>m.role\<close> of \<^verbatim>\<open>null\<close> raises a TypeError, and so does
  \<^verbatim>\<open>map\<close> on a value that is no array.
\<close>

definition remap_message :: "json \<Rightarrow> js_error + json" where
  "remap_message m =
     (if nullish m then Inl TypeError
      else Inr (JObj [(js ''role'',
                       if get_prop m (js ''role'') = JStr (js ''tool'') then JStr (js ''user'')
                       else get_prop m (js ''role'')),
                      (js ''content'', get_prop m (js ''content''))]))"

fun map_messages :: "json list \<Rightarrow> js_error + json list" where
  "map_messages [] = Inr []"
| "map_messages (m # ms) =
     (case remap_message m of
        Inl e \<Rightarrow> Inl e
      | Inr m' \<Rightarrow> (case map_messages ms of Inl e \<Rightarrow> Inl e | Inr ms' \<Rightarrow> Inr (m' # ms')))"

definition prepareOllamaRequest :: "json \<Rightarrow> js_error + json" where
  "prepareOllamaRequest chatReq =
     (let cleanReq = AList.delete (js ''tools'') (own_properties chatReq) in
      if \<not> isArray (get_prop (JObj cleanReq) (js ''messages'')) then Inl TypeError
      else
        (case map_messages (elements (get_prop (JObj cleanReq) (js ''messages''))) of
           Inl e \<Rightarrow> Inl e
         | Inr messages \<Rightarrow>
             Inr (JObj
               (AList.update (js ''options'') (JObj [(js ''stop'', JArr [JStr (js ''</think>'')])])
                 (AList.update (js ''model'') (JStr DEEPSEEK_CHAT_MODEL)
                   (AList.update (js ''messages'') (JArr messages) cleanReq))))))"

text \<open>\<^verbatim>\<open>sendOllamaRequest\<close>: the request goes out, then the outcome is looked at.\<close>

definition sendOllamaRequest :: "network \<Rightarrow> json \<Rightarrow> event list \<times> (js_error + http_response)" where
  "sendOllamaRequest net ollamaReq =
     ([Fetch_ollama ollamaReq],
      (case ollama net of
         Fetch_rejected m \<Rightarrow> Inl (Js_error m)
       | Fetch_resolved response \<Rightarrow>
           if \<not> ok response
           then Inl (APIError (js ''Ollama request failed: '' @ decimal (status response))
                       (status response))
           else Inr response))"

text \<open>
  \<^verbatim>\<open>extractThoughtContent\<close>.  \<open>accumulate\<close> is the loop over the lines with the
  text accumulated so far.  Three things are caught and leave the text as it is: the
  SyntaxError of \<^verbatim>\<open>JSON.parse\<close>, the TypeError of destructuring \<^verbatim>\<open>null\<close>, and the
  TypeError of appending a value that has no string.  \<open>match_think\<close> is the first
  capture group of \<^verbatim>\<open>/<think>(.*)/s\<close>: the leftmost match, the dot matching every
  code unit up to the end.  \<open>think_fragment\<close> is the value returned, computed from the
  accumulated text.
\<close>

fun accumulate :: "number_format \<Rightarrow> jstring list \<Rightarrow> jstring \<Rightarrow> jstring" where
  "accumulate nf [] accumulatedContent = accumulatedContent"
| "accumulate nf (line # lines) accumulatedContent =
     (case JSON_parse line of
        None \<Rightarrow> accumulate nf lines accumulatedContent
      | Some v \<Rightarrow>
          if nullish v then accumulate nf lines accumulatedContent
          else
            (let message = get_prop v (js ''message'');
                 done = get_prop v (js ''done'')
             in if truthy (get_prop message (js ''content'')) then
                  (case to_string nf (get_prop message (js ''content'')) of
                     None \<Rightarrow> accumulate nf lines accumulatedContent
                   | Some s \<Rightarrow>
                       if truthy done then accumulatedContent @ s
                       else accumulate nf lines (accumulatedContent @ s))
                else if truthy done then accumulatedContent
                else accumulate nf lines accumulatedContent))"

fun match_think :: "jstring \<Rightarrow> jstring option" where
  "match_think [] = None"
| "match_think (c # cs) =
     (if prefix (js ''<think>'') (c # cs) then Some (drop 7 (c # cs)) else match_think cs)"

definition think_fragment :: "jstring \<Rightarrow> jstring" where
  "think_fragment accumulatedContent =
     (case match_think accumulatedContent of
        None \<Rightarrow> []
      | Some g \<Rightarrow> trim g @ js ''</think>'')"

definition extractThoughtContent :: "number_format \<Rightarrow> http_response \<Rightarrow> js_error + jstring" where
  "extractThoughtContent nf response =
     (case text_body response of
        Inl m \<Rightarrow> Inl (Js_error m)
      | Inr rawResponse \<Rightarrow>
          (let lines = filter (\<lambda>l. l \<noteq> []) (js_split 10 rawResponse);
               accumulatedContent = accumulate nf lines []
           in Inr (think_fragment accumulatedContent)))"

definition processOllamaRequest ::
  "number_format \<Rightarrow> network \<Rightarrow> json \<Rightarrow> event list \<times> (js_error + jstring)" where
  "processOllamaRequest nf net chatReq =
     (case prepareOllamaRequest chatReq of
        Inl e \<Rightarrow> ([], Inl e)
      | Inr ollamaReq \<Rightarrow>
          (case sendOllamaRequest net ollamaReq of
             (t, Inl e) \<Rightarrow> (t, Inl e)
           | (t, Inr response) \<Rightarrow> (t, extractThoughtContent nf response)))"

text \<open>
  \<^verbatim>\<open>prepareOpenRouterRequest\<close>; a string is truthy when it is not empty.  The handler
  calls it on a validated request only, which is an object whose \<^verbatim>\<open>messages\<close> are an
  array: \<open>own_properties\<close> is the spread of that object and \<open>elements\<close> the spread of
  that array.
\<close>

definition prepareOpenRouterRequest :: "json \<Rightarrow> jstring \<Rightarrow> json" where
  "prepareOpenRouterRequest chatReq thoughtContent =
     JObj
       (AList.update (js ''messages'')
          (JArr (elements (get_prop chatReq (js ''messages'')) @
                 (if thoughtContent \<noteq> []
                  then [JObj [(js ''role'', JStr (js ''assistant'')),
                              (js ''content'', JStr thoughtContent)]]
                  else [])))
          (AList.update (js ''model'') (JStr CLAUDE_MODEL) (own_properties chatReq)))"

text \<open>
  \<^verbatim>\<open>handleStreamingResponse\<close>.  \<open>read_loop\<close> is the \<^verbatim>\<open>while\<close> loop together with
  the timer callback, run over what happens during the relay.  A chunk, taken as the text
  \<^verbatim>\<open>decoder.decode(value)\<close> gives, is written, a tick writes the heartbeat, the end of
  the stream leaves the loop and a failed read throws.
  The source registers no listener for the caller's connection, so nothing of the program
  runs when it closes; \<^verbatim>\<open>res.write\<close> on a closed connection does not throw.  When
  nothing more happens the loop waits in \<^verbatim>\<open>reader.read()\<close> and does not settle.  The
  \<^verbatim>\<open>finally\<close> block runs when the loop is left, by \<^verbatim>\<open>break\<close> or by the throw.
\<close>

fun read_loop :: "relay_event list \<Rightarrow> event list \<times> completion" where
  "read_loop [] = ([], Pending)"
| "read_loop (Chunk v # es) = (let (t, r) = read_loop es in (Res_write v # t, r))"
| "read_loop (Tick # es) =
     (let (t, r) = read_loop es in (Res_write (js '': heartbeat'' @ [10, 10]) # t, r))"
| "read_loop (Client_close # es) = (let (t, r) = read_loop es in (Client_closed # t, r))"
| "read_loop (Read_done # es) = ([], Returned)"
| "read_loop (Read_error m # es) = ([], Threw (Js_error m))"

definition handleStreamingResponse :: "http_response \<Rightarrow> event list \<times> completion" where
  "handleStreamingResponse response =
     (let (t, r) = read_loop (stream_body response) in
      ([Res_setHeader (js ''Content-Type'') (js ''text/event-stream''),
        Res_setHeader (js ''Cache-Control'') (js ''no-cache''),
        Res_setHeader (js ''Connection'') (js ''keep-alive''),
        Set_interval] @ t @ (if r = Pending then [] else [Clear_interval, Res_end]), r))"

text \<open>
  \<^verbatim>\<open>handleOpenRouterRequest\<close>.  \<^verbatim>\<open>response.json()\<close> is the text of the body given
  to \<^verbatim>\<open>JSON.parse\<close>.
\<close>

definition handleOpenRouterRequest ::
  "network \<Rightarrow> json \<Rightarrow> jstring \<Rightarrow> request \<Rightarrow> event list \<times> completion" where
  "handleOpenRouterRequest net chatReq thoughtContent req =
     (case getOpenRouterKey req of
        Inl e \<Rightarrow> ([], Threw e)
      | Inr openrouterKey \<Rightarrow>
          (let openrouterReq = prepareOpenRouterRequest chatReq thoughtContent;
               sent = [Fetch_openrouter openrouterKey openrouterReq]
           in case openrouter net of
                Fetch_rejected m \<Rightarrow> (sent, Threw (Js_error m))
              | Fetch_resolved response \<Rightarrow>
                  if \<not> ok response
                  then (sent, Threw (APIError
                          (js ''OpenRouter request failed: '' @ decimal (status response))
                          (status response)))
                  else if truthy (get_prop chatReq (js ''stream'')) then
                    (let (t, r) = handleStreamingResponse response in (sent @ t, r))
                  else
                    (case text_body response of
                       Inl m \<Rightarrow> (sent, Threw (Js_error m))
                     | Inr text \<Rightarrow>
                         (case JSON_parse text of
                            None \<Rightarrow> (sent, Threw SyntaxError)
                          | Some v \<Rightarrow> (sent @ [Res_json v], Returned)))))"

text \<open>
  The state of the response object that matters to the source: whether its headers have
  been sent.  They are sent by the first \<^verbatim>\<open>res.write\<close>, by \<^verbatim>\<open>res.end\<close> and by
  \<^verbatim>\<open>res.json\<close>.  \<open>headersSent\<close> reads it off the effects so far.
\<close>

fun sends_headers :: "event \<Rightarrow> bool" where
  "sends_headers (Res_write v) = True"
| "sends_headers Res_end = True"
| "sends_headers (Res_json v) = True"
| "sends_headers _ = False"

definition headersSent :: "event list \<Rightarrow> bool" where
  "headersSent t \<longleftrightarrow> list_ex sends_headers t"

definition ERR_HTTP_HEADERS_SENT :: js_error where
  "ERR_HTTP_HEADERS_SENT = Js_error (js ''Cannot set headers after they are sent to the client'')"

text \<open>
  \<^verbatim>\<open>handleError\<close>, given the error and the effects so far on the response.
  \<^verbatim>\<open>res.status\<close> sets the status code of the response object.  \<^verbatim>\<open>res.json\<close> sets the
  content type and sends the body; once the headers have been sent, setting a header
  throws \<^verbatim>\<open>ERR_HTTP_HEADERS_SENT\<close>: then nothing is sent and \<^verbatim>\<open>handleError\<close> ends with
  that throw.
\<close>

fun handleError :: "js_error \<Rightarrow> event list \<Rightarrow> event list \<times> completion" where
  "handleError (APIError message statusCode) t =
     (if headersSent t then ([Res_status statusCode], Threw ERR_HTTP_HEADERS_SENT)
      else
        ([Res_status statusCode,
          Res_json (JObj [(js ''error'',
            JStr (if message \<noteq> [] then message else js ''Internal server error''))])],
         Returned))"
| "handleError (Js_error message) t =
     (if headersSent t then ([Res_status 500], Threw ERR_HTTP_HEADERS_SENT)
      else
        ([Res_status 500,
          Res_json (JObj [(js ''error'',
            JStr (if message \<noteq> [] then message else js ''Internal server error''))])],
         Returned))"

text \<open>
  The handler of \<^verbatim>\<open>POST /v1/chat/completions\<close>.  \<open>lastMessage\<close> is the last
  element of the array, \<^verbatim>\<open>undefined\<close> when there is none.  \<open>catch_error\<close> is the
  \<^verbatim>\<open>catch\<close> block around the body of the handler: it calls \<^verbatim>\<open>handleError\<close> on
  the response as the body has left it, and ends as \<^verbatim>\<open>handleError\<close> ends.
\<close>

definition lastMessage :: "json \<Rightarrow> json" where
  "lastMessage chatReq =
     (let messages = elements (get_prop chatReq (js ''messages'')) in
      if messages = [] then JUndefined else last messages)"

definition isToolMessage :: "json \<Rightarrow> bool" where
  "isToolMessage chatReq \<longleftrightarrow> get_prop (lastMessage chatReq) (js ''role'') = JStr (js ''tool'')"

fun catch_error :: "event list \<times> completion \<Rightarrow> event list \<times> completion" where
  "catch_error (t, Threw e) = (let (t', r) = handleError e t in (t @ t', r))"
| "catch_error (t, r) = (t, r)"

definition chat_completions ::
  "number_format \<Rightarrow> network \<Rightarrow> request \<Rightarrow> event list \<times> completion" where
  "chat_completions nf net req =
     catch_error
       (case validateRequest req of
          Inl e \<Rightarrow> ([], Threw e)
        | Inr chatReq \<Rightarrow>
            (case (if \<not> isToolMessage chatReq then processOllamaRequest nf net chatReq
                   else ([], Inr [])) of
               (t, Inl e) \<Rightarrow> (t, Threw e)
             | (t, Inr thoughtContent) \<Rightarrow>
                 (let (t', r) = handleOpenRouterRequest net chatReq thoughtContent req
                  in (t @ t', r))))"

section \<open>Notions of the specification\<close>

text \<open>
  The definitions of this section are not taken from the source.  They say, in the words
  of the specification, what the theorems below compare the source with.

  The first occurrence of a pattern in a string is the least position at which the
  pattern can be read.
\<close>

definition first_occurrence :: "jstring \<Rightarrow> jstring \<Rightarrow> nat option" where
  "first_occurrence pat s = find (\<lambda>i. take (length pat) (drop i s) = pat) [0 ..< Suc (length s)]"



text \<open>The outbound network calls among the effects.\<close>

fun is_fetch :: "event \<Rightarrow> bool" where
  "is_fetch (Fetch_ollama r) = True"
| "is_fetch (Fetch_openrouter k r) = True"
| "is_fetch _ = False"

text \<open>
  A message as the local model is to see it: role \<^verbatim>\<open>tool\<close> becomes \<^verbatim>\<open>user\<close>, every
  other role stays, the content stays.
\<close>

definition spec_remap :: "json \<Rightarrow> json" where
  "spec_remap m =
     JObj [(js ''role'',
            if get_prop m (js ''role'') = JStr (js ''tool'') then JStr (js ''user'')
            else get_prop m (js ''role'')),
           (js ''content'', get_prop m (js ''content''))]"

text \<open>
  The two things that end the read loop: the end of the upstream stream and a failed read.
\<close>

fun leaves_loop :: "relay_event \<Rightarrow> bool" where
  "leaves_loop Read_done = True"
| "leaves_loop (Read_error m) = True"
| "leaves_loop _ = False"






section \<open>Example inputs\<close>

definition user_message :: json where
  "user_message = JObj [(js ''role'', JStr (js ''user'')), (js ''content'', JStr (js ''hi''))]"

definition tool_message :: json where
  "tool_message =
     JObj [(js ''role'', JStr (js ''tool'')), (js ''content'', JStr (js ''42'')),
           (js ''tool_call_id'', JStr (js ''call_1''))]"

definition example_body :: json where
  "example_body =
     JObj [(js ''messages'', JArr [user_message]), (js ''temperature'', JNum 7 (- 1))]"

definition tool_body :: json where
  "tool_body =
     JObj [(js ''messages'', JArr [user_message, tool_message]), (js ''tools'', JArr [JObj []])]"

text \<open>
  The examples format no number; a format that prints nothing stands for the runtime's.
\<close>

definition no_format :: number_format where
  "no_format m e = []"

text \<open>
  A request without \<^verbatim>\<open>Authorization\<close> header, and a network whose local endpoint
  answers with an empty body.
\<close>

definition anonymous_request :: request where
  "anonymous_request = \<lparr>authorization = None, body = example_body\<rparr>"

definition quiet_network :: network where
  "quiet_network =
     \<lparr>ollama = Fetch_resolved \<lparr>status = 200, text_body = Inr [], stream_body = []\<rparr>,
      openrouter = Fetch_rejected (js ''fetch failed'')\<rparr>"

text \<open>An upstream response with a given course of the relay.\<close>

definition streamed :: "relay_event list \<Rightarrow> http_response" where
  "streamed es = \<lparr>status = 200, text_body = Inr [], stream_body = es\<rparr>"








section \<open>Termination of the lexer\<close>

lemma lex_string_shorter: "lex_string cs = Some (s, rest) \<Longrightarrow> length rest < Suc (length cs)"
proof (induction cs arbitrary: s rest rule: lex_string.induct)
  case 1
  then show ?case by simp
next
  case (2 c cs)
  consider (quote) "c = 34" | (esc) "c = 92" | (plain) "c \<noteq> 34" "c \<noteq> 92"
    by blast
  then show ?case
  proof cases
    case quote
    with "2.prems" show ?thesis by simp
  next
    case plain
    with "2.prems" obtain s' where "\<not> c < 32" "lex_string cs = Some (s', rest)"
      by (auto split: if_splits)
    with plain "2.IH"(3) [of s' rest] show ?thesis by simp
  next
    case esc
    with "2.prems" obtain e r where cs: "cs = e # r"
      by (cases cs) auto
    show ?thesis
    proof (cases "e = 117")
      case False
      with esc cs "2.prems" obtain x s' where "escape e = Some x" "lex_string r = Some (s', rest)"
        by (auto split: option.splits)
      with esc cs False "2.IH"(2) [of e r x s' rest] show ?thesis by simp
    next
      case True
      with esc cs "2.prems" obtain h1 h2 h3 h4 r' u s' where
        r: "r = h1 # h2 # h3 # h4 # r'" and h: "hex4 h1 h2 h3 h4 = Some u" and
        l: "lex_string r' = Some (s', rest)"
        by (auto split: list.splits option.splits)
      with esc cs True "2.IH"(1) [of e r h1 "h2 # h3 # h4 # r'" h2 "h3 # h4 # r'" h3 "h4 # r'" h4 r' u s' rest]
      show ?thesis by simp
    qed
  qed
qed
lemma int_part_shorter:
  assumes "int_part cs = Some (ds, r)"
  shows "length r < length cs"
proof (cases cs)
  case Nil
  with assms show ?thesis by (simp add: int_part_def)
next
  case (Cons c t)
  with assms have "r = t \<or> r = dropWhile is_digit t"
    by (auto simp: int_part_def split: if_splits)
  moreover have "length (dropWhile is_digit t) \<le> length t"
    by (rule length_dropWhile_le)
  ultimately show ?thesis using Cons by auto
qed

lemma frac_part_shorter:
  assumes "frac_part cs = Some (fs, r)"
  shows "length r \<le> length cs"
proof (cases cs)
  case Nil
  with assms show ?thesis by (simp add: frac_part_def)
next
  case (Cons c t)
  with assms have "r = cs \<or> r = dropWhile is_digit t"
    by (auto simp: frac_part_def split: if_splits)
  moreover have "length (dropWhile is_digit t) \<le> length t"
    by (rule length_dropWhile_le)
  ultimately show ?thesis using Cons by auto
qed

lemma exp_part_shorter:
  assumes "exp_part cs = Some (x, r)"
  shows "length r \<le> length cs"
proof (cases cs)
  case Nil
  with assms show ?thesis by (simp add: exp_part_def)
next
  case (Cons c t)
  with assms have "r = cs \<or> r = dropWhile is_digit t \<or> r = dropWhile is_digit (tl t)"
    by (auto simp: exp_part_def Let_def split: if_splits)
  moreover have "length (dropWhile is_digit t) \<le> length t"
    by (rule length_dropWhile_le)
  moreover have "length (dropWhile is_digit (tl t)) \<le> length (tl t)"
    by (rule length_dropWhile_le)
  ultimately show ?thesis using Cons by auto
qed

lemma lex_number_shorter:
  assumes "lex_number (c # cs) = Some (n, rest)"
  shows "length rest < Suc (length cs)"
proof -
  from assms obtain ds cs2 fs cs3 x where
    i: "int_part (if c = 45 then tl (c # cs) else c # cs) = Some (ds, cs2)" and
    f: "frac_part cs2 = Some (fs, cs3)" and
    e: "exp_part cs3 = Some (x, rest)"
    by (auto simp: lex_number_def Let_def split: option.splits)
  from i have "length cs2 < Suc (length cs)"
    by (cases "c = 45") (auto dest: int_part_shorter)
  with frac_part_shorter [OF f] exp_part_shorter [OF e] show ?thesis
    by simp
qed

termination lex
  by (relation "measure length") (auto dest: lex_string_shorter lex_number_shorter)

section \<open>First occurrences\<close>

lemma find_map_Suc: "find P (map Suc xs) = map_option Suc (find (\<lambda>i. P (Suc i)) xs)"
  by (induction xs) auto

lemma first_occurrence_Nil: "first_occurrence pat [] = (if pat = [] then Some 0 else None)"
  by (auto simp: first_occurrence_def)

lemma first_occurrence_Cons:
  "first_occurrence pat (c # cs) =
     (if prefix pat (c # cs) then Some 0 else map_option Suc (first_occurrence pat cs))"
proof -
  have u: "[0 ..< Suc (Suc (length cs))] = 0 # map Suc [0 ..< Suc (length cs)]"
    by (metis map_Suc_upt upt_conv_Cons zero_less_Suc)
  have p: "(take (length pat) (c # cs) = pat) = prefix pat (c # cs)"
    by (metis prefix_def append_eq_conv_conj take_is_prefix)
  show ?thesis
    unfolding first_occurrence_def length_Cons u
    by (simp add: find_map_Suc p del: upt_Suc)
qed

lemma replace_first_occurrence:
  "replace pat rep s =
     (case first_occurrence pat s of
        None \<Rightarrow> s
      | Some i \<Rightarrow> take i s @ rep @ drop (i + length pat) s)"
proof (induction s)
  case Nil
  then show ?case by (simp add: first_occurrence_Nil)
next
  case (Cons c cs)
  then show ?case
    by (simp add: first_occurrence_Cons split: option.splits)
qed

lemma match_think_first_occurrence:
  "match_think s = map_option (\<lambda>i. drop (i + 7) s) (first_occurrence (js ''<think>'') s)"
proof (induction s)
  case Nil
  then show ?case by (simp add: first_occurrence_Nil js_def)
next
  case (Cons c cs)
  show ?case
  proof (cases "prefix (js ''<think>'') (c # cs)")
    case True
    then show ?thesis by (simp add: first_occurrence_Cons)
  next
    case False
    have d: "drop (Suc i + 7) (c # cs) = drop (i + 7) cs" for i
    proof -
      have "Suc i + 7 = Suc (i + 7)" by simp
      then show ?thesis by (simp only: drop_Suc_Cons)
    qed
    have "map_option (\<lambda>i. drop (i + 7) (c # cs)) (map_option Suc (first_occurrence (js ''<think>'') cs))
        = map_option (\<lambda>i. drop (i + 7) cs) (first_occurrence (js ''<think>'') cs)"
      by (cases "first_occurrence (js ''<think>'') cs") (simp_all only: option.map d)
    with False Cons.IH show ?thesis
      by (simp only: first_occurrence_Cons match_think.simps if_False)
  qed
qed

lemma first_occurrence_SomeD:
  "first_occurrence pat s = Some i \<Longrightarrow> take (length pat) (drop i s) = pat \<and> i \<le> length s"
  unfolding first_occurrence_def by (auto simp: find_Some_iff simp del: upt_Suc)

lemma Bearer_length: "length (js ''Bearer '') = 7"
  by (simp add: js_def)

lemma first_occurrence_self: "pat \<noteq> [] \<Longrightarrow> first_occurrence pat pat = Some 0"
  by (cases pat) (simp_all add: first_occurrence_Cons)

lemma replace_empty_iff:
  assumes "pat \<noteq> []"
  shows "replace pat [] h = [] \<longleftrightarrow> h = [] \<or> h = pat"
proof
  assume "h = [] \<or> h = pat"
  with assms show "replace pat [] h = []"
    by (auto simp: replace_first_occurrence first_occurrence_Nil first_occurrence_self)
next
  assume e: "replace pat [] h = []"
  show "h = [] \<or> h = pat"
  proof (cases "first_occurrence pat h")
    case None
    with e show ?thesis by (simp add: replace_first_occurrence)
  next
    case (Some i)
    with e have t: "take i h = []" and d: "drop (i + length pat) h = []"
      by (simp_all add: replace_first_occurrence)
    from first_occurrence_SomeD [OF Some] have p: "take (length pat) (drop i h) = pat" by simp
    show ?thesis
    proof (cases "h = []")
      case True
      then show ?thesis by simp
    next
      case False
      with t have "i = 0" by simp
      with p d have "h = pat"
        by (metis add_0 append_take_drop_id append_Nil2 drop0)
      then show ?thesis by simp
    qed
  qed
qed

section \<open>Credential extraction\<close>

text \<open>
  Claim C9.  \<^verbatim>\<open>getOpenRouterKey\<close> raises the 401 error exactly when the
  \<^verbatim>\<open>Authorization\<close> header is absent, empty or exactly \<^verbatim>\<open>Bearer \<close>.  Every other
  header value is forwarded with only the first occurrence of \<^verbatim>\<open>Bearer \<close> removed,
  wherever it stands, and unchanged when there is none.
\<close>

theorem getOpenRouterKey_removes_first_Bearer:
  "getOpenRouterKey req =
     (case authorization req of
        None \<Rightarrow> Inl (APIError (js ''Missing OpenRouter API key'') 401)
      | Some h \<Rightarrow>
          if h = [] \<or> h = js ''Bearer '' then Inl (APIError (js ''Missing OpenRouter API key'') 401)
          else Inr (case first_occurrence (js ''Bearer '') h of
                      None \<Rightarrow> h
                    | Some i \<Rightarrow> take i h @ drop (i + 7) h))"
proof (cases "authorization req")
  case None
  then show ?thesis by (simp add: getOpenRouterKey_def)
next
  case (Some h)
  have ne: "js ''Bearer '' \<noteq> []" by (simp add: js_def)
  have r: "replace (js ''Bearer '') [] h =
      (case first_occurrence (js ''Bearer '') h of None \<Rightarrow> h | Some i \<Rightarrow> take i h @ drop (i + 7) h)"
    by (simp add: replace_first_occurrence Bearer_length split: option.splits)
  from replace_empty_iff [OF ne, of h] Some r show ?thesis
    by (auto simp: getOpenRouterKey_def)
qed

theorem getOpenRouterKey_removes_first_Bearer_witness:
  "getOpenRouterKey \<lparr>authorization = Some (js ''Bearer Bearer k''), body = JNull\<rparr> = Inr (js ''Bearer k'') \<and>
   getOpenRouterKey \<lparr>authorization = Some (js ''sk-or-abc''), body = JNull\<rparr> = Inr (js ''sk-or-abc'') \<and>
   getOpenRouterKey \<lparr>authorization = Some (js ''bearer abc''), body = JNull\<rparr> = Inr (js ''bearer abc'') \<and>
   getOpenRouterKey \<lparr>authorization = Some (js ''xBearer y''), body = JNull\<rparr> = Inr (js ''xy'') \<and>
   getOpenRouterKey \<lparr>authorization = Some (js ''Bearer ''), body = JNull\<rparr>
     = Inl (APIError (js ''Missing OpenRouter API key'') 401) \<and>
   getOpenRouterKey \<lparr>authorization = Some [], body = JNull\<rparr>
     = Inl (APIError (js ''Missing OpenRouter API key'') 401) \<and>
   getOpenRouterKey \<lparr>authorization = None, body = JNull\<rparr>
     = Inl (APIError (js ''Missing OpenRouter API key'') 401)"
  using getOpenRouterKey_removes_first_Bearer [of "\<lparr>authorization = Some (js ''Bearer Bearer k''), body = JNull\<rparr>"]
    getOpenRouterKey_removes_first_Bearer [of "\<lparr>authorization = Some (js ''sk-or-abc''), body = JNull\<rparr>"]
    getOpenRouterKey_removes_first_Bearer [of "\<lparr>authorization = Some (js ''bearer abc''), body = JNull\<rparr>"]
    getOpenRouterKey_removes_first_Bearer [of "\<lparr>authorization = Some (js ''xBearer y''), body = JNull\<rparr>"]
    getOpenRouterKey_removes_first_Bearer [of "\<lparr>authorization = Some (js ''Bearer ''), body = JNull\<rparr>"]
    getOpenRouterKey_removes_first_Bearer [of "\<lparr>authorization = Some [], body = JNull\<rparr>"]
    getOpenRouterKey_removes_first_Bearer [of "\<lparr>authorization = None, body = JNull\<rparr>"]
  by (simp add: first_occurrence_def js_def)

section \<open>Requests and their properties\<close>

lemma get_prop_update:
  "get_prop (JObj (AList.update k v fs)) k' = (if k' = k then v else get_prop (JObj fs) k')"
  by (simp add: update_conv')

lemma get_prop_delete:
  "get_prop (JObj (AList.delete k fs)) k' = (if k' = k then JUndefined else get_prop (JObj fs) k')"
  by (simp add: delete_conv')

lemma validateRequest_InrD:
  assumes "validateRequest req = Inr chatReq"
  shows "chatReq = body req \<and> (\<exists>fs. chatReq = JObj fs) \<and>
         (\<exists>m ms. get_prop chatReq (js ''messages'') = JArr (m # ms))"
proof -
  from assms have b: "chatReq = body req"
    and a: "isArray (get_prop (body req) (js ''messages''))"
    and n: "elements (get_prop (body req) (js ''messages'')) \<noteq> []"
    by (auto simp: validateRequest_def Let_def split: if_splits)
  from a have "\<exists>fs. body req = JObj fs"
    by (cases "body req") simp_all
  moreover from a n have "\<exists>m ms. get_prop (body req) (js ''messages'') = JArr (m # ms)"
    by (cases "get_prop (body req) (js ''messages'')") (auto simp: neq_Nil_conv)
  ultimately show ?thesis using b by simp
qed

lemma read_loop_no_fetch: "read_loop es = (t, r) \<Longrightarrow> \<not> list_ex is_fetch t"
  by (induction es arbitrary: t r rule: read_loop.induct) (auto split: prod.splits)

lemma handleStreamingResponse_no_fetch:
  "\<not> list_ex is_fetch (fst (handleStreamingResponse response))"
  using read_loop_no_fetch [of "stream_body response"]
  by (auto simp: handleStreamingResponse_def split: prod.splits)

lemma handleOpenRouterRequest_trace:
  "(\<exists>e. getOpenRouterKey req = Inl e \<and>
        handleOpenRouterRequest net chatReq thoughtContent req = ([], Threw e)) \<or>
   (\<exists>key t. getOpenRouterKey req = Inr key \<and>
        fst (handleOpenRouterRequest net chatReq thoughtContent req) =
          Fetch_openrouter key (prepareOpenRouterRequest chatReq thoughtContent) # t \<and>
        \<not> list_ex is_fetch t)"
proof (cases "getOpenRouterKey req")
  case (Inl e)
  then show ?thesis by (simp add: handleOpenRouterRequest_def)
next
  case (Inr key)
  show ?thesis
  proof (cases "openrouter net")
    case (Fetch_rejected m)
    with Inr show ?thesis by (simp add: handleOpenRouterRequest_def Let_def)
  next
    case (Fetch_resolved response)
    show ?thesis
    proof (cases "ok response \<and> truthy (get_prop chatReq (js ''stream''))")
      case True
      with Inr Fetch_resolved handleStreamingResponse_no_fetch [of response] show ?thesis
        by (auto simp: handleOpenRouterRequest_def Let_def split: prod.splits)
    next
      case False
      with Inr Fetch_resolved show ?thesis
        by (auto simp: handleOpenRouterRequest_def Let_def split: sum.splits option.splits)
    qed
  qed
qed

lemma list_ex_is_fetch_openrouter: "Fetch_openrouter k r \<in> set t \<Longrightarrow> list_ex is_fetch t"
  unfolding list_ex_iff by (rule bexI [where x = "Fetch_openrouter k r"]) simp_all

lemma map_messages_total: "\<not> list_ex nullish ms \<Longrightarrow> map_messages ms = Inr (map spec_remap ms)"
  by (induction ms) (simp_all add: remap_message_def spec_remap_def)

lemma map_messages_InrD:
  "map_messages ms = Inr ms' \<Longrightarrow> \<not> list_ex nullish ms \<and> ms' = map spec_remap ms"
proof (induction ms arbitrary: ms')
  case Nil
  then show ?case by simp
next
  case (Cons m ms)
  from Cons.prems obtain m' ms'' where
    m: "remap_message m = Inr m'" and r: "map_messages ms = Inr ms''" and e: "ms' = m' # ms''"
    by (auto split: sum.splits)
  from m have "\<not> nullish m" and "m' = spec_remap m"
    by (auto simp: remap_message_def spec_remap_def split: if_splits)
  with Cons.IH [OF r] e show ?case by simp
qed

section \<open>The request validator\<close>

text \<open>
  Claim C4.  The JSON body parser leaves an object or an array in \<^verbatim>\<open>req.body\<close>, never
  \<^verbatim>\<open>null\<close> or \<^verbatim>\<open>undefined\<close>.  For every such payload the validator returns the
  payload itself when \<^verbatim>\<open>messages\<close> is an array with at least one element; it fails,
  and then with status 400, exactly when \<^verbatim>\<open>messages\<close> is absent, not an array or an
  empty array; and two payloads with the same \<^verbatim>\<open>messages\<close> are both accepted or both
  rejected, whatever their other fields are.
\<close>

theorem validateRequest_messages_only:
  assumes "\<not> nullish (body req)"
  shows "(\<forall>m ms. get_prop (body req) (js ''messages'') = JArr (m # ms) \<longrightarrow>
            validateRequest req = Inr (body req)) \<and>
         (validateRequest req = Inl (APIError (js ''Invalid request: messages array is required'') 400)
            \<longleftrightarrow> get_prop (body req) (js ''messages'') = JUndefined \<or>
                \<not> isArray (get_prop (body req) (js ''messages'')) \<or>
                get_prop (body req) (js ''messages'') = JArr []) \<and>
         (\<forall>e. validateRequest req = Inl e \<longrightarrow>
            e = APIError (js ''Invalid request: messages array is required'') 400) \<and>
         (\<forall>b. validateRequest req = Inr b \<longrightarrow> b = body req) \<and>
         (\<forall>req'. \<not> nullish (body req') \<and>
            get_prop (body req') (js ''messages'') = get_prop (body req) (js ''messages'') \<longrightarrow>
            isl (validateRequest req') = isl (validateRequest req))"
proof -
  let ?m = "get_prop (body req) (js ''messages'')"
  let ?bad = "APIError (js ''Invalid request: messages array is required'') 400"
  have v: "validateRequest r =
      (if isArray (get_prop (body r) (js ''messages'')) \<and> elements (get_prop (body r) (js ''messages'')) \<noteq> []
       then Inr (body r)
       else Inl (APIError (js ''Invalid request: messages array is required'') 400))"
    if "\<not> nullish (body r)" for r
    using that by (simp add: validateRequest_def Let_def)
  have accept: "\<forall>m ms. ?m = JArr (m # ms) \<longrightarrow> validateRequest req = Inr (body req)"
    by (simp add: v [OF assms])
  have reject: "validateRequest req = Inl ?bad \<longleftrightarrow>
      ?m = JUndefined \<or> \<not> isArray ?m \<or> ?m = JArr []"
    by (cases ?m) (simp_all add: v [OF assms])
  have only_400: "\<forall>e. validateRequest req = Inl e \<longrightarrow> e = ?bad"
    by (simp add: v [OF assms])
  have unchanged: "\<forall>b. validateRequest req = Inr b \<longrightarrow> b = body req"
    by (auto simp: v [OF assms] split: if_splits)
  have others: "\<forall>req'. \<not> nullish (body req') \<and>
      get_prop (body req') (js ''messages'') = ?m \<longrightarrow>
      isl (validateRequest req') = isl (validateRequest req)"
    by (auto simp: v assms)
  from accept reject only_400 unchanged others show ?thesis
    by blast
qed

theorem validateRequest_messages_only_witness:
  "\<not> nullish example_body \<and>
   validateRequest \<lparr>authorization = None, body = example_body\<rparr> = Inr example_body \<and>
   validateRequest \<lparr>authorization = None, body = JObj [(js ''messages'', JArr [])]\<rparr> =
     Inl (APIError (js ''Invalid request: messages array is required'') 400) \<and>
   validateRequest \<lparr>authorization = None, body = JObj [(js ''model'', JStr (js ''gpt-4o''))]\<rparr> =
     Inl (APIError (js ''Invalid request: messages array is required'') 400)"
proof -
  let ?accepted = "\<lparr>authorization = None, body = example_body\<rparr>"
  let ?empty = "\<lparr>authorization = None, body = JObj [(js ''messages'', JArr [])]\<rparr>"
  let ?absent = "\<lparr>authorization = None, body = JObj [(js ''model'', JStr (js ''gpt-4o''))]\<rparr>"
  have n: "\<not> nullish example_body"
    by (simp add: example_body_def nullish_def)
  have "get_prop (body ?accepted) (js ''messages'') = JArr [user_message]"
    by (simp add: example_body_def)
  with validateRequest_messages_only [of ?accepted, THEN conjunct1] n
  have a: "validateRequest ?accepted = Inr example_body"
    by simp
  have "get_prop (body ?empty) (js ''messages'') = JArr []"
    by simp
  with validateRequest_messages_only [of ?empty, THEN conjunct2, THEN conjunct1]
  have e: "validateRequest ?empty =
      Inl (APIError (js ''Invalid request: messages array is required'') 400)"
    by (simp add: nullish_def)
  have "get_prop (body ?absent) (js ''messages'') = JUndefined"
    by (simp add: js_def)
  with validateRequest_messages_only [of ?absent, THEN conjunct2, THEN conjunct1]
  have b: "validateRequest ?absent =
      Inl (APIError (js ''Invalid request: messages array is required'') 400)"
    by (simp add: nullish_def)
  from n a e b show ?thesis
    by blast
qed

section \<open>The request to the upstream model\<close>

text \<open>
  Claim C6.  For every validated request and every thought fragment, the upstream request
  has the fixed upstream model name as \<^verbatim>\<open>model\<close>; its messages are the original
  messages, followed by one message of role \<^verbatim>\<open>assistant\<close> with the fragment as content
  exactly when the fragment is not empty; every other property is that of the original
  request.  It is the request \<^verbatim>\<open>handleOpenRouterRequest\<close> sends.
\<close>

theorem prepareOpenRouterRequest_appends_thought:
  assumes "validateRequest req = Inr chatReq"
  shows "get_prop (prepareOpenRouterRequest chatReq thoughtContent) (js ''model'') = JStr CLAUDE_MODEL \<and>
         get_prop (prepareOpenRouterRequest chatReq thoughtContent) (js ''messages'') =
           JArr (elements (get_prop chatReq (js ''messages'')) @
                 (if thoughtContent \<noteq> []
                  then [JObj [(js ''role'', JStr (js ''assistant'')), (js ''content'', JStr thoughtContent)]]
                  else [])) \<and>
         (thoughtContent = [] \<longrightarrow>
            get_prop (prepareOpenRouterRequest chatReq thoughtContent) (js ''messages'') =
            get_prop chatReq (js ''messages'')) \<and>
         (\<forall>k. k \<noteq> js ''model'' \<and> k \<noteq> js ''messages'' \<longrightarrow>
            get_prop (prepareOpenRouterRequest chatReq thoughtContent) k = get_prop chatReq k) \<and>
         (\<forall>key r. Fetch_openrouter key r \<in> set (fst (handleOpenRouterRequest net chatReq thoughtContent req')) \<longrightarrow>
            r = prepareOpenRouterRequest chatReq thoughtContent)"
proof -
  from validateRequest_InrD [OF assms] obtain fs m ms where
    c: "chatReq = JObj fs" and ms: "get_prop chatReq (js ''messages'') = JArr (m # ms)"
    by blast
  have ne: "js ''model'' \<noteq> js ''messages''"
    by (simp add: js_def)
  have model: "get_prop (prepareOpenRouterRequest chatReq thoughtContent) (js ''model'') = JStr CLAUDE_MODEL"
    unfolding prepareOpenRouterRequest_def get_prop_update c own_properties.simps using ne by simp
  have messages: "get_prop (prepareOpenRouterRequest chatReq thoughtContent) (js ''messages'') =
           JArr (elements (get_prop chatReq (js ''messages'')) @
                 (if thoughtContent \<noteq> []
                  then [JObj [(js ''role'', JStr (js ''assistant'')), (js ''content'', JStr thoughtContent)]]
                  else []))"
    unfolding prepareOpenRouterRequest_def get_prop_update by simp
  have same: "thoughtContent = [] \<longrightarrow>
            get_prop (prepareOpenRouterRequest chatReq thoughtContent) (js ''messages'') =
            get_prop chatReq (js ''messages'')"
    unfolding messages using ms by simp
  have others: "\<forall>k. k \<noteq> js ''model'' \<and> k \<noteq> js ''messages'' \<longrightarrow>
            get_prop (prepareOpenRouterRequest chatReq thoughtContent) k = get_prop chatReq k"
    unfolding prepareOpenRouterRequest_def get_prop_update c own_properties.simps by simp
  have sent: "\<forall>key r. Fetch_openrouter key r \<in> set (fst (handleOpenRouterRequest net chatReq thoughtContent req')) \<longrightarrow>
            r = prepareOpenRouterRequest chatReq thoughtContent"
    using handleOpenRouterRequest_trace [of req' net chatReq thoughtContent]
    by (auto dest: list_ex_is_fetch_openrouter)
  from model messages same others sent show ?thesis
    by blast
qed

theorem prepareOpenRouterRequest_appends_thought_witness:
  "validateRequest \<lparr>authorization = None, body = example_body\<rparr> = Inr example_body \<and>
   get_prop (prepareOpenRouterRequest example_body (js ''plan</think>'')) (js ''messages'') =
     JArr [user_message,
           JObj [(js ''role'', JStr (js ''assistant'')), (js ''content'', JStr (js ''plan</think>''))]] \<and>
   get_prop (prepareOpenRouterRequest example_body []) (js ''messages'') = JArr [user_message] \<and>
   get_prop (prepareOpenRouterRequest example_body (js ''plan</think>'')) (js ''model'') =
     JStr CLAUDE_MODEL \<and>
   get_prop (prepareOpenRouterRequest example_body (js ''plan</think>'')) (js ''temperature'') =
     JNum 7 (- 1)"
proof -
  have v: "validateRequest \<lparr>authorization = None, body = example_body\<rparr> = Inr example_body"
    by (simp add: validateRequest_def example_body_def nullish_def)
  have t: "js ''temperature'' \<noteq> js ''model'' \<and> js ''temperature'' \<noteq> js ''messages''"
    by (simp add: js_def)
  have p: "js ''plan</think>'' \<noteq> []"
    by (simp add: js_def)
  from prepareOpenRouterRequest_appends_thought [OF v, of "js ''plan</think>''"]
    prepareOpenRouterRequest_appends_thought [OF v, of "[]"] v t p
  show ?thesis
    by (simp add: example_body_def)
qed

section \<open>The request to the local model\<close>

text \<open>
  Claim C7.  For every validated request, the request \<^verbatim>\<open>prepareOllamaRequest\<close> builds
  has no \<^verbatim>\<open>tools\<close> property; its messages are the original ones in their order, each
  with role \<^verbatim>\<open>tool\<close> turned into \<^verbatim>\<open>user\<close> and every other role kept; its model is
  the fixed local model name; its options are the stop sequence \<^verbatim>\<open></think>\<close> alone; and
  it is the one request sent to the local endpoint.  It is built whenever no message is
  \<^verbatim>\<open>null\<close>; when it is not built, nothing is sent.
\<close>

theorem prepareOllamaRequest_transforms:
  assumes "validateRequest req = Inr chatReq"
  shows "(\<forall>ollamaReq. prepareOllamaRequest chatReq = Inr ollamaReq \<longrightarrow>
            get_prop ollamaReq (js ''tools'') = JUndefined \<and>
            js ''tools'' \<notin> fst ` set (own_properties ollamaReq) \<and>
            get_prop ollamaReq (js ''messages'') =
              JArr (map spec_remap (elements (get_prop chatReq (js ''messages'')))) \<and>
            get_prop ollamaReq (js ''model'') = JStr DEEPSEEK_CHAT_MODEL \<and>
            get_prop ollamaReq (js ''options'') = JObj [(js ''stop'', JArr [JStr (js ''</think>'')])] \<and>
            (\<forall>k. k \<noteq> js ''tools'' \<and> k \<noteq> js ''messages'' \<and> k \<noteq> js ''model'' \<and>
                 k \<noteq> js ''options'' \<longrightarrow> get_prop ollamaReq k = get_prop chatReq k) \<and>
            fst (processOllamaRequest nf net chatReq) = [Fetch_ollama ollamaReq]) \<and>
         (\<not> list_ex nullish (elements (get_prop chatReq (js ''messages''))) \<longrightarrow>
            (\<exists>ollamaReq. prepareOllamaRequest chatReq = Inr ollamaReq)) \<and>
         (\<forall>e. prepareOllamaRequest chatReq = Inl e \<longrightarrow> fst (processOllamaRequest nf net chatReq) = [])"
proof -
  from validateRequest_InrD [OF assms] obtain fs m ms where
    c: "chatReq = JObj fs" and ms: "get_prop chatReq (js ''messages'') = JArr (m # ms)"
    by blast
  let ?clean = "AList.delete (js ''tools'') fs"
  have ne: "js ''tools'' \<noteq> js ''messages''" "js ''tools'' \<noteq> js ''model''" "js ''tools'' \<noteq> js ''options''"
    "js ''messages'' \<noteq> js ''model''" "js ''messages'' \<noteq> js ''options''" "js ''model'' \<noteq> js ''options''"
    by (simp_all add: js_def)
  have cm: "get_prop (JObj ?clean) (js ''messages'') = JArr (m # ms)"
    using ms ne unfolding c get_prop_delete by simp
  have p: "prepareOllamaRequest chatReq =
      (case map_messages (m # ms) of
         Inl e \<Rightarrow> Inl e
       | Inr messages \<Rightarrow>
           Inr (JObj
             (AList.update (js ''options'') (JObj [(js ''stop'', JArr [JStr (js ''</think>'')])])
               (AList.update (js ''model'') (JStr DEEPSEEK_CHAT_MODEL)
                 (AList.update (js ''messages'') (JArr messages) ?clean)))))"
    unfolding prepareOllamaRequest_def Let_def c own_properties.simps cm by simp
  have keys: "js ''tools'' \<notin> fst ` set
      (AList.update (js ''options'') v1 (AList.update (js ''model'') v2
        (AList.update (js ''messages'') v3 ?clean)))" for v1 v2 v3
    using ne delete_notin_dom [of "js ''tools''" fs] by (simp add: dom_update)
  have props: "get_prop ollamaReq (js ''tools'') = JUndefined \<and>
            js ''tools'' \<notin> fst ` set (own_properties ollamaReq) \<and>
            get_prop ollamaReq (js ''messages'') =
              JArr (map spec_remap (elements (get_prop chatReq (js ''messages'')))) \<and>
            get_prop ollamaReq (js ''model'') = JStr DEEPSEEK_CHAT_MODEL \<and>
            get_prop ollamaReq (js ''options'') = JObj [(js ''stop'', JArr [JStr (js ''</think>'')])] \<and>
            (\<forall>k. k \<noteq> js ''tools'' \<and> k \<noteq> js ''messages'' \<and> k \<noteq> js ''model'' \<and>
                 k \<noteq> js ''options'' \<longrightarrow> get_prop ollamaReq k = get_prop chatReq k)"
    if r: "prepareOllamaRequest chatReq = Inr ollamaReq" for ollamaReq
  proof -
    from r obtain messages where mm: "map_messages (m # ms) = Inr messages" and
      o: "ollamaReq = JObj
             (AList.update (js ''options'') (JObj [(js ''stop'', JArr [JStr (js ''</think>'')])])
               (AList.update (js ''model'') (JStr DEEPSEEK_CHAT_MODEL)
                 (AList.update (js ''messages'') (JArr messages) ?clean)))"
      unfolding p by (auto split: sum.splits)
    from mm have messages: "messages = map spec_remap (m # ms)"
      by (simp only: map_messages_InrD)
    show ?thesis
      unfolding o get_prop_update get_prop_delete own_properties.simps messages ms elements.simps
      using ne keys by (simp add: c get_prop_delete)
  qed
  have sent: "fst (processOllamaRequest nf net chatReq) = [Fetch_ollama ollamaReq]"
    if "prepareOllamaRequest chatReq = Inr ollamaReq" for ollamaReq
    using that
    by (simp add: processOllamaRequest_def sendOllamaRequest_def split: sum.splits prod.splits)
  have total: "\<not> list_ex nullish (elements (get_prop chatReq (js ''messages''))) \<longrightarrow>
            (\<exists>ollamaReq. prepareOllamaRequest chatReq = Inr ollamaReq)"
  proof
    assume "\<not> list_ex nullish (elements (get_prop chatReq (js ''messages'')))"
    then have "map_messages (m # ms) = Inr (map spec_remap (m # ms))"
      unfolding ms elements.simps by (rule map_messages_total)
    then show "\<exists>ollamaReq. prepareOllamaRequest chatReq = Inr ollamaReq"
      unfolding p by simp
  qed
  have failed: "\<forall>e. prepareOllamaRequest chatReq = Inl e \<longrightarrow> fst (processOllamaRequest nf net chatReq) = []"
    by (simp add: processOllamaRequest_def)
  from props sent total failed show ?thesis
    by blast
qed

theorem prepareOllamaRequest_transforms_witness:
  "validateRequest \<lparr>authorization = None, body = tool_body\<rparr> = Inr tool_body \<and>
   prepareOllamaRequest tool_body =
     Inr (JObj [(js ''messages'',
                 JArr [user_message,
                       JObj [(js ''role'', JStr (js ''user'')), (js ''content'', JStr (js ''42''))]]),
                (js ''model'', JStr DEEPSEEK_CHAT_MODEL),
                (js ''options'', JObj [(js ''stop'', JArr [JStr (js ''</think>'')])])])"
proof -
  have v: "validateRequest \<lparr>authorization = None, body = tool_body\<rparr> = Inr tool_body"
    by (simp add: validateRequest_def tool_body_def nullish_def)
  have n: "\<not> list_ex nullish (elements (get_prop tool_body (js ''messages'')))"
    by (simp add: tool_body_def user_message_def tool_message_def nullish_def)
  from prepareOllamaRequest_transforms [OF v] n v show ?thesis
    by (simp add: prepareOllamaRequest_def tool_body_def user_message_def tool_message_def
        remap_message_def nullish_def js_def)
qed

section \<open>The handler and its network calls\<close>

lemma catch_error_Threw:
  "catch_error (t, Threw e) = (t @ fst (handleError e t), snd (handleError e t))"
  by (simp add: case_prod_beta)

lemma catch_error_fetches:
  "filter is_fetch (fst (catch_error x)) = filter is_fetch (fst x)"
proof (cases x)
  case (Pair t r)
  have "filter is_fetch (fst (handleError e t)) = []" for e
    by (cases e) simp_all
  with Pair show ?thesis
    by (cases r) (simp_all add: catch_error_Threw del: catch_error.simps(1))
qed

lemma processOllamaRequest_trace:
  "fst (processOllamaRequest nf net c) = [] \<or>
   (\<exists>q. fst (processOllamaRequest nf net c) = [Fetch_ollama q])"
  by (auto simp: processOllamaRequest_def sendOllamaRequest_def split: sum.splits prod.splits)

lemma processOllamaRequest_sends_no_headers:
  "processOllamaRequest nf net c = (t, r) \<Longrightarrow> \<not> headersSent t"
  using processOllamaRequest_trace [of nf net c] by (auto simp: headersSent_def)

lemma handleOpenRouterRequest_fetches:
  "filter is_fetch (fst (handleOpenRouterRequest net chatReq thoughtContent req)) =
     (case getOpenRouterKey req of
        Inl e \<Rightarrow> []
      | Inr key \<Rightarrow> [Fetch_openrouter key (prepareOpenRouterRequest chatReq thoughtContent)])"
proof -
  have nil: "filter is_fetch t = []" if "\<not> list_ex is_fetch t" for t
    using that by (induction t) auto
  from handleOpenRouterRequest_trace [of req net chatReq thoughtContent] show ?thesis
    by (auto simp: nil)
qed

text \<open>
  Claim C5.  For every validated request whose last message has role \<^verbatim>\<open>tool\<close>, the
  handler goes straight to the upstream client with the empty string as thought fragment:
  no request is sent to the local endpoint, and a request that reaches the upstream
  endpoint is built from the empty fragment and carries the original messages.
\<close>

theorem tool_turn_skips_local_model:
  assumes "validateRequest req = Inr chatReq"
    and "get_prop (last (elements (get_prop chatReq (js ''messages'')))) (js ''role'') = JStr (js ''tool'')"
  shows "chat_completions nf net req = catch_error (handleOpenRouterRequest net chatReq [] req) \<and>
         (\<forall>r. Fetch_ollama r \<notin> set (fst (chat_completions nf net req))) \<and>
         (\<forall>key r. Fetch_openrouter key r \<in> set (fst (chat_completions nf net req)) \<longrightarrow>
            r = prepareOpenRouterRequest chatReq [] \<and>
            get_prop r (js ''messages'') = get_prop chatReq (js ''messages''))"
proof -
  from validateRequest_InrD [OF assms(1)] obtain m ms where
    ms: "get_prop chatReq (js ''messages'') = JArr (m # ms)"
    by blast
  with assms(2) have tool: "isToolMessage chatReq"
    by (simp add: isToolMessage_def lastMessage_def)
  with assms(1) have run: "chat_completions nf net req =
      catch_error (handleOpenRouterRequest net chatReq [] req)"
    by (simp add: chat_completions_def split: prod.splits)
  have f: "filter is_fetch (fst (chat_completions nf net req)) =
      (case getOpenRouterKey req of
         Inl e \<Rightarrow> []
       | Inr key \<Rightarrow> [Fetch_openrouter key (prepareOpenRouterRequest chatReq [])])"
    unfolding run catch_error_fetches handleOpenRouterRequest_fetches ..
  have local: "Fetch_ollama r \<notin> set (fst (chat_completions nf net req))" for r
  proof
    assume "Fetch_ollama r \<in> set (fst (chat_completions nf net req))"
    then have "Fetch_ollama r \<in> set (filter is_fetch (fst (chat_completions nf net req)))"
      by simp
    then show False
      unfolding f by (simp split: sum.splits)
  qed
  have upstream: "r = prepareOpenRouterRequest chatReq []"
    if "Fetch_openrouter key r \<in> set (fst (chat_completions nf net req))" for key r
  proof -
    from that have "Fetch_openrouter key r \<in> set (filter is_fetch (fst (chat_completions nf net req)))"
      by simp
    then show ?thesis
      unfolding f by (simp split: sum.splits)
  qed
  have same: "get_prop (prepareOpenRouterRequest chatReq []) (js ''messages'') =
      get_prop chatReq (js ''messages'')"
    unfolding prepareOpenRouterRequest_def get_prop_update using ms by simp
  from run local upstream same show ?thesis
    by blast
qed

theorem tool_turn_skips_local_model_witness:
  "validateRequest \<lparr>authorization = Some (js ''Bearer k''), body = tool_body\<rparr> = Inr tool_body \<and>
   get_prop (last (elements (get_prop tool_body (js ''messages'')))) (js ''role'') = JStr (js ''tool'') \<and>
   chat_completions no_format quiet_network \<lparr>authorization = Some (js ''Bearer k''), body = tool_body\<rparr> =
     catch_error (handleOpenRouterRequest quiet_network tool_body []
       \<lparr>authorization = Some (js ''Bearer k''), body = tool_body\<rparr>)"
proof -
  have v: "validateRequest \<lparr>authorization = Some (js ''Bearer k''), body = tool_body\<rparr> = Inr tool_body"
    by (simp add: validateRequest_def tool_body_def nullish_def)
  have l: "get_prop (last (elements (get_prop tool_body (js ''messages'')))) (js ''role'') = JStr (js ''tool'')"
    by (simp add: tool_body_def tool_message_def)
  from tool_turn_skips_local_model [OF v l, of no_format quiet_network, THEN conjunct1] v l
  show ?thesis
    by simp
qed

text \<open>
  Claim C1, as the code has it.  The credential is read by the upstream client, after the
  local reasoning step.  For every request without \<^verbatim>\<open>Authorization\<close> header, the
  upstream client fails with status 401 before it makes a network call, so that no request
  is ever sent to the upstream endpoint; and the handler answers with status 401 once the
  request is valid and the local reasoning step, when it runs, has succeeded.
\<close>

theorem missing_credential_stops_upstream_client:
  assumes "authorization req = None"
  shows "handleOpenRouterRequest net chatReq thoughtContent req =
           ([], Threw (APIError (js ''Missing OpenRouter API key'') 401)) \<and>
         (\<forall>key r. Fetch_openrouter key r \<notin> set (fst (chat_completions nf net req))) \<and>
         (\<forall>c. validateRequest req = Inr c \<and> isToolMessage c \<longrightarrow>
            chat_completions nf net req =
              ([Res_status 401,
                Res_json (JObj [(js ''error'', JStr (js ''Missing OpenRouter API key''))])], Returned)) \<and>
         (\<forall>c t th. validateRequest req = Inr c \<and> \<not> isToolMessage c \<and>
                  processOllamaRequest nf net c = (t, Inr th) \<longrightarrow>
            chat_completions nf net req =
              (t @ [Res_status 401,
                    Res_json (JObj [(js ''error'', JStr (js ''Missing OpenRouter API key''))])],
               Returned))"
proof -
  have msg: "js ''Missing OpenRouter API key'' \<noteq> []"
    by (simp add: js_def)
  from assms have key: "getOpenRouterKey req = Inl (APIError (js ''Missing OpenRouter API key'') 401)"
    by (simp add: getOpenRouterKey_def)
  then have client: "handleOpenRouterRequest net c th req =
      ([], Threw (APIError (js ''Missing OpenRouter API key'') 401))" for c th
    by (simp add: handleOpenRouterRequest_def)
  have fetches: "filter is_fetch (fst (chat_completions nf net req)) =
      (case validateRequest req of
         Inl e \<Rightarrow> []
       | Inr c \<Rightarrow> if isToolMessage c then [] else filter is_fetch (fst (processOllamaRequest nf net c)))"
    unfolding chat_completions_def catch_error_fetches
    by (simp add: client split: sum.splits prod.splits)
  have local_only: "\<not> list_ex (\<lambda>x. \<exists>key r. x = Fetch_openrouter key r) (fst (processOllamaRequest nf net c))" for c
    by (auto simp: processOllamaRequest_def sendOllamaRequest_def split: sum.splits prod.splits)
  have upstream: "\<forall>key r. Fetch_openrouter key r \<notin> set (fst (chat_completions nf net req))"
  proof (intro allI notI)
    fix key r
    assume "Fetch_openrouter key r \<in> set (fst (chat_completions nf net req))"
    then have "Fetch_openrouter key r \<in> set (filter is_fetch (fst (chat_completions nf net req)))"
      by simp
    with local_only show False
      unfolding fetches by (auto simp: list_ex_iff split: sum.splits if_splits)
  qed
  have tool: "\<forall>c. validateRequest req = Inr c \<and> isToolMessage c \<longrightarrow>
            chat_completions nf net req =
              ([Res_status 401,
                Res_json (JObj [(js ''error'', JStr (js ''Missing OpenRouter API key''))])], Returned)"
    using msg by (simp add: chat_completions_def client headersSent_def)
  have other: "\<forall>c t th. validateRequest req = Inr c \<and> \<not> isToolMessage c \<and>
                  processOllamaRequest nf net c = (t, Inr th) \<longrightarrow>
            chat_completions nf net req =
              (t @ [Res_status 401,
                    Res_json (JObj [(js ''error'', JStr (js ''Missing OpenRouter API key''))])],
               Returned)"
    using msg
    by (auto simp: chat_completions_def client dest: processOllamaRequest_sends_no_headers)
  from client upstream tool other show ?thesis
    by blast
qed

theorem missing_credential_stops_upstream_client_witness:
  "authorization anonymous_request = None \<and>
   handleOpenRouterRequest quiet_network example_body [] anonymous_request =
     ([], Threw (APIError (js ''Missing OpenRouter API key'') 401))"
  using missing_credential_stops_upstream_client [of anonymous_request quiet_network example_body "[]", THEN conjunct1]
  by (simp add: anonymous_request_def)

text \<open>
  Claim C1, as stated, fails: a valid request without \<^verbatim>\<open>Authorization\<close> header whose
  last message is no tool message is sent to the local endpoint first, and answered with
  status 401 only then.
\<close>

theorem local_model_called_before_credential_check:
  "authorization anonymous_request = None \<and>
   chat_completions no_format quiet_network anonymous_request =
     ([Fetch_ollama
         (JObj [(js ''messages'', JArr [user_message]),
                (js ''temperature'', JNum 7 (- 1)),
                (js ''model'', JStr DEEPSEEK_CHAT_MODEL),
                (js ''options'', JObj [(js ''stop'', JArr [JStr (js ''</think>'')])])]),
       Res_status 401,
       Res_json (JObj [(js ''error'', JStr (js ''Missing OpenRouter API key''))])],
      Returned)"
  by (simp add: anonymous_request_def quiet_network_def example_body_def user_message_def
      chat_completions_def validateRequest_def nullish_def isToolMessage_def lastMessage_def
      processOllamaRequest_def prepareOllamaRequest_def remap_message_def sendOllamaRequest_def
      ok_def extractThoughtContent_def think_fragment_def handleOpenRouterRequest_def
      getOpenRouterKey_def headersSent_def js_def)

section \<open>The stream relay\<close>

lemma read_loop_settles: "snd (read_loop es) \<noteq> Pending \<longleftrightarrow> list_ex leaves_loop es"
  by (induction es rule: read_loop.induct) (auto split: prod.splits)

lemma read_loop_keeps_timer:
  "Clear_interval \<notin> set (fst (read_loop es)) \<and> Res_end \<notin> set (fst (read_loop es))"
  by (induction es rule: read_loop.induct) (auto split: prod.splits)

lemma read_loop_ignores_close:
  "snd (read_loop (filter (\<lambda>e. e \<noteq> Client_close) es)) = snd (read_loop es) \<and>
   fst (read_loop (filter (\<lambda>e. e \<noteq> Client_close) es)) =
     filter (\<lambda>x. x \<noteq> Client_closed) (fst (read_loop es))"
  by (induction es rule: read_loop.induct) (auto split: prod.splits)

text \<open>
  Claim C3, as the code has it.  The relay leaves its loop exactly when the upstream
  stream ends or a read fails.  When it does, the last two things it does are to cancel
  the heartbeat timer and to end the response, and it has done neither before; as long as
  it has not left the loop, the timer is not cancelled.  The caller closing its connection
  is no exit path: with or without it, the relay ends the same way and writes the same
  chunks and heartbeats.
\<close>

theorem relay_cancels_timer_when_loop_is_left:
  "(snd (handleStreamingResponse response) \<noteq> Pending \<longleftrightarrow>
      list_ex leaves_loop (stream_body response)) \<and>
   (snd (handleStreamingResponse response) \<noteq> Pending \<longrightarrow>
      (\<exists>t. fst (handleStreamingResponse response) = t @ [Clear_interval, Res_end] \<and>
           Clear_interval \<notin> set t \<and> Res_end \<notin> set t)) \<and>
   (snd (handleStreamingResponse response) = Pending \<longrightarrow>
      Clear_interval \<notin> set (fst (handleStreamingResponse response)) \<and>
      Res_end \<notin> set (fst (handleStreamingResponse response))) \<and>
   snd (handleStreamingResponse
          (response\<lparr>stream_body := filter (\<lambda>e. e \<noteq> Client_close) (stream_body response)\<rparr>)) =
     snd (handleStreamingResponse response) \<and>
   fst (handleStreamingResponse
          (response\<lparr>stream_body := filter (\<lambda>e. e \<noteq> Client_close) (stream_body response)\<rparr>)) =
     filter (\<lambda>x. x \<noteq> Client_closed) (fst (handleStreamingResponse response))"
proof -
  obtain t r where l: "read_loop (stream_body response) = (t, r)"
    by (cases "read_loop (stream_body response)")
  from read_loop_settles [of "stream_body response"] l
  have settles: "r \<noteq> Pending \<longleftrightarrow> list_ex leaves_loop (stream_body response)"
    by simp
  from read_loop_keeps_timer [of "stream_body response"] l
  have keeps: "Clear_interval \<notin> set t" "Res_end \<notin> set t"
    by simp_all
  from read_loop_ignores_close [of "stream_body response"] l
  have ignores: "read_loop (filter (\<lambda>e. e \<noteq> Client_close) (stream_body response)) =
      (filter (\<lambda>x. x \<noteq> Client_closed) t, r)"
    by (simp add: prod_eq_iff)
  have h: "handleStreamingResponse response =
      ([Res_setHeader (js ''Content-Type'') (js ''text/event-stream''),
        Res_setHeader (js ''Cache-Control'') (js ''no-cache''),
        Res_setHeader (js ''Connection'') (js ''keep-alive''),
        Set_interval] @ t @ (if r = Pending then [] else [Clear_interval, Res_end]), r)"
    by (simp add: handleStreamingResponse_def l)
  have h': "handleStreamingResponse
      (response\<lparr>stream_body := filter (\<lambda>e. e \<noteq> Client_close) (stream_body response)\<rparr>) =
      ([Res_setHeader (js ''Content-Type'') (js ''text/event-stream''),
        Res_setHeader (js ''Cache-Control'') (js ''no-cache''),
        Res_setHeader (js ''Connection'') (js ''keep-alive''),
        Set_interval] @ filter (\<lambda>x. x \<noteq> Client_closed) t @
        (if r = Pending then [] else [Clear_interval, Res_end]), r)"
    by (simp add: handleStreamingResponse_def ignores)
  have exit: "snd (handleStreamingResponse response) \<noteq> Pending \<longrightarrow>
      (\<exists>t. fst (handleStreamingResponse response) = t @ [Clear_interval, Res_end] \<and>
           Clear_interval \<notin> set t \<and> Res_end \<notin> set t)"
  proof
    assume "snd (handleStreamingResponse response) \<noteq> Pending"
    with h have "fst (handleStreamingResponse response) =
        ([Res_setHeader (js ''Content-Type'') (js ''text/event-stream''),
          Res_setHeader (js ''Cache-Control'') (js ''no-cache''),
          Res_setHeader (js ''Connection'') (js ''keep-alive''),
          Set_interval] @ t) @ [Clear_interval, Res_end]"
      by simp
    moreover from keeps have "Clear_interval \<notin> set
        ([Res_setHeader (js ''Content-Type'') (js ''text/event-stream''),
          Res_setHeader (js ''Cache-Control'') (js ''no-cache''),
          Res_setHeader (js ''Connection'') (js ''keep-alive''),
          Set_interval] @ t)"
      and "Res_end \<notin> set
        ([Res_setHeader (js ''Content-Type'') (js ''text/event-stream''),
          Res_setHeader (js ''Cache-Control'') (js ''no-cache''),
          Res_setHeader (js ''Connection'') (js ''keep-alive''),
          Set_interval] @ t)"
      by simp_all
    ultimately show "\<exists>t. fst (handleStreamingResponse response) = t @ [Clear_interval, Res_end] \<and>
           Clear_interval \<notin> set t \<and> Res_end \<notin> set t"
      by blast
  qed
  have pending: "snd (handleStreamingResponse response) = Pending \<longrightarrow>
      Clear_interval \<notin> set (fst (handleStreamingResponse response)) \<and>
      Res_end \<notin> set (fst (handleStreamingResponse response))"
    using keeps by (simp add: h)
  have unseen: "snd (handleStreamingResponse
          (response\<lparr>stream_body := filter (\<lambda>e. e \<noteq> Client_close) (stream_body response)\<rparr>)) =
     snd (handleStreamingResponse response)"
    "fst (handleStreamingResponse
          (response\<lparr>stream_body := filter (\<lambda>e. e \<noteq> Client_close) (stream_body response)\<rparr>)) =
     filter (\<lambda>x. x \<noteq> Client_closed) (fst (handleStreamingResponse response))"
    unfolding h h' by simp_all
  from settles h have s: "snd (handleStreamingResponse response) \<noteq> Pending \<longleftrightarrow>
      list_ex leaves_loop (stream_body response)"
    by simp
  from s exit pending unseen show ?thesis
    by blast
qed

theorem relay_cancels_timer_when_loop_is_left_witness:
  "handleStreamingResponse (streamed [Chunk (js ''a''), Tick, Read_done]) =
     ([Res_setHeader (js ''Content-Type'') (js ''text/event-stream''),
       Res_setHeader (js ''Cache-Control'') (js ''no-cache''),
       Res_setHeader (js ''Connection'') (js ''keep-alive''),
       Set_interval, Res_write (js ''a''), Res_write (js '': heartbeat'' @ [10, 10]),
       Clear_interval, Res_end], Returned) \<and>
   snd (handleStreamingResponse (streamed [Chunk (js ''a''), Read_error (js ''terminated'')])) =
     Threw (Js_error (js ''terminated''))"
  using relay_cancels_timer_when_loop_is_left [of "streamed [Chunk (js ''a''), Tick, Read_done]", THEN conjunct1]
    relay_cancels_timer_when_loop_is_left [of "streamed [Chunk (js ''a''), Read_error (js ''terminated'')]", THEN conjunct1]
  by (simp add: streamed_def handleStreamingResponse_def)

text \<open>
  Claim C3, as stated, fails: after the caller has closed its connection the timer fires,
  the heartbeat is written, the next chunk is forwarded and the timer is not cancelled.
\<close>

theorem heartbeat_fires_after_disconnect:
  "handleStreamingResponse (streamed [Chunk (js ''a''), Client_close, Tick, Chunk (js ''b'')]) =
     ([Res_setHeader (js ''Content-Type'') (js ''text/event-stream''),
       Res_setHeader (js ''Cache-Control'') (js ''no-cache''),
       Res_setHeader (js ''Connection'') (js ''keep-alive''),
       Set_interval, Res_write (js ''a''), Client_closed,
       Res_write (js '': heartbeat'' @ [10, 10]), Res_write (js ''b'')], Pending)"
  by (simp add: streamed_def handleStreamingResponse_def)

section \<open>Thought extraction\<close>













lemma trim_white_space:
  assumes "\<forall>c\<in>set s. is_white_space c"
  shows "trim s = []"
proof -
  from assms have d: "dropWhile is_white_space s = []"
    by (simp add: dropWhile_eq_Nil_conv)
  show ?thesis
    unfolding trim_def d by simp
qed



text \<open>
  Claim C10.  For every accumulated text in which the first \<^verbatim>\<open><think>\<close> is followed by
  white space only, or by nothing, the fragment is exactly \<^verbatim>\<open></think>\<close>, which is not
  empty, so that the upstream request built from it ends with an assistant message whose
  content is \<^verbatim>\<open></think>\<close>; and it is the fragment \<^verbatim>\<open>extractThoughtContent\<close> returns
  for a response that accumulates to such a text.
\<close>

theorem white_space_thought_is_closing_tag:
  assumes "first_occurrence (js ''<think>'') accumulatedContent = Some i"
    and "\<forall>c\<in>set (drop (i + 7) accumulatedContent). is_white_space c"
  shows "think_fragment accumulatedContent = js ''</think>'' \<and>
         js ''</think>'' \<noteq> [] \<and>
         get_prop (prepareOpenRouterRequest chatReq (think_fragment accumulatedContent))
             (js ''messages'') =
           JArr (elements (get_prop chatReq (js ''messages'')) @
                 [JObj [(js ''role'', JStr (js ''assistant'')),
                        (js ''content'', JStr (js ''</think>''))]]) \<and>
         (text_body response = Inr rawResponse \<and>
          accumulate nf (filter (\<lambda>l. l \<noteq> []) (js_split 10 rawResponse)) [] = accumulatedContent \<longrightarrow>
            extractThoughtContent nf response = Inr (js ''</think>''))"
proof -
  from assms(1) have "match_think accumulatedContent = Some (drop (i + 7) accumulatedContent)"
    by (simp add: match_think_first_occurrence)
  with trim_white_space [OF assms(2)]
  have f: "think_fragment accumulatedContent = js ''</think>''"
    by (simp add: think_fragment_def)
  have ne: "js ''</think>'' \<noteq> []"
    by (simp add: js_def)
  have m: "get_prop (prepareOpenRouterRequest chatReq (think_fragment accumulatedContent))
             (js ''messages'') =
           JArr (elements (get_prop chatReq (js ''messages'')) @
                 [JObj [(js ''role'', JStr (js ''assistant'')),
                        (js ''content'', JStr (js ''</think>''))]])"
    unfolding f prepareOpenRouterRequest_def get_prop_update using ne by simp
  have e: "text_body response = Inr rawResponse \<and>
          accumulate nf (filter (\<lambda>l. l \<noteq> []) (js_split 10 rawResponse)) [] = accumulatedContent \<longrightarrow>
            extractThoughtContent nf response = Inr (js ''</think>'')"
    using f by (auto simp: extractThoughtContent_def)
  from f ne m e show ?thesis
    by blast
qed

theorem white_space_thought_is_closing_tag_witness:
  "first_occurrence (js ''<think>'') (js ''Sure.<think> '' @ [10]) = Some 5 \<and>
   think_fragment (js ''Sure.<think> '' @ [10]) = js ''</think>'' \<and>
   think_fragment (js ''<think>'') = js ''</think>'' \<and>
   get_prop (prepareOpenRouterRequest example_body (think_fragment (js ''<think>''))) (js ''messages'') =
     JArr [user_message,
           JObj [(js ''role'', JStr (js ''assistant'')), (js ''content'', JStr (js ''</think>''))]]"
proof -
  have a: "first_occurrence (js ''<think>'') (js ''Sure.<think> '' @ [10]) = Some 5"
    by (simp add: first_occurrence_Cons js_def)
  have b: "\<forall>c\<in>set (drop (5 + 7) (js ''Sure.<think> '' @ [10])). is_white_space c"
    by (simp add: js_def is_white_space_def)
  have c: "first_occurrence (js ''<think>'') (js ''<think>'') = Some 0"
    by (simp add: first_occurrence_Cons js_def)
  have d: "\<forall>c\<in>set (drop (0 + 7) (js ''<think>'')). is_white_space c"
    by (simp add: js_def)
  note x = white_space_thought_is_closing_tag [OF a b, THEN conjunct1]
  note y = white_space_thought_is_closing_tag [OF c d, THEN conjunct1]
  note z = white_space_thought_is_closing_tag [OF c d, of example_body, THEN conjunct2, THEN conjunct2, THEN conjunct1]
  from a x y z show ?thesis
    by (simp add: example_body_def)
qed

section \<open>The error mapper\<close>











end
